theory Spec2Isabelle
  imports Main "HOL-Library.Word"
begin

unbundle bit_operations_syntax

section \<open>Machine types\<close>

type_synonym u8 = "8 word"
type_synonym u16 = "16 word"
type_synonym u32 = "32 word"

section \<open>nv.h: record validity and the initialisation sentinel\<close>

text \<open>
  \<^verbatim>\<open>#define NV_VARIABLE_NON_STORED ((uint16_t)0xffffffff)\<close>.
  The literal does not fit \<^verbatim>\<open>int\<close>, so it is a 32-bit unsigned value; the cast
  keeps its low 16 bits.
\<close>

definition NV_VARIABLE_NON_STORED :: u16 where
  "NV_VARIABLE_NON_STORED = ucast (0xffffffff :: u32)"

definition NV_INVALID_VARIABLE :: u16 where
  "NV_INVALID_VARIABLE = 0x000f"

definition NV_READ_VARIABLE_SUCCESS :: u16 where
  "NV_READ_VARIABLE_SUCCESS = 0"

text \<open>
  \<^verbatim>\<open>#define NV_IS_DATA_INITIALIZED (nvInitFlag != 0Xffff)\<close>.
  The flag \<^verbatim>\<open>nvInitFlag\<close> is a 16-bit variable of the store; the comparison is made
  after integer promotion, on the flag's unsigned value.
\<close>

definition NV_IS_DATA_INITIALIZED :: "u16 \<Rightarrow> bool" where
  "NV_IS_DATA_INITIALIZED nvInitFlag = (uint nvInitFlag \<noteq> 0xffff)"

text \<open>
  \<^verbatim>\<open>#define NV_IS_VARIABLE_VALID(var) (((~var)&0xFF) == (var>>8))\<close>
  applied to a 16-bit record. Both sides are computed after promotion of \<^verbatim>\<open>var\<close>
  to a 32-bit integer: the complement sets the upper 16 bits, the mask keeps the low
  byte, and the shift leaves the high byte of the record.
\<close>

definition NV_IS_VARIABLE_VALID :: "u16 \<Rightarrow> bool" where
  "NV_IS_VARIABLE_VALID var =
     ((NOT (ucast var :: u32)) AND 0xFF = drop_bit 8 (ucast var :: u32))"

subsection \<open>The codec around the validity check\<close>

text \<open>
  Modelled from the spec: the two bytes of a physical record. The header declares
  \<^verbatim>\<open>NV_WriteVariable_U8\<close> and \<^verbatim>\<open>NV_ReadVariable_U8\<close> only; their bodies are not
  part of the sources at hand. The spec's record is "8 bits of payload, 8 bits of
  inverted-payload checksum"; the validity macro compares the complement of the low
  byte with the high byte, so the payload is the low byte and the checksum the high one.
\<close>

definition payload :: "u16 \<Rightarrow> u8" where
  "payload r = ucast r"

definition checksum :: "u16 \<Rightarrow> u8" where
  "checksum r = ucast (drop_bit 8 r)"

text \<open>
  Modelled from the spec: \<^verbatim>\<open>encode(payload: u8) -> PhysicalRecord\<close> "sets checksum =
  complement(payload)".
\<close>

definition encode :: "u8 \<Rightarrow> u16" where
  "encode p = push_bit 8 (ucast (NOT p)) OR ucast p"

datatype codec_error = Invalid

text \<open>
  Modelled from the spec: \<^verbatim>\<open>decode(record) -> Result<u8, Invalid>\<close> "recomputes expected
  checksum; returns the payload if it matches, else signals Invalid". The check itself
  is the macro of the header.
\<close>

definition decode :: "u16 \<Rightarrow> codec_error + u8" where
  "decode r = (if NV_IS_VARIABLE_VALID r then Inr (payload r) else Inl Invalid)"

section \<open>nv.h: the variable catalogue\<close>

text \<open>
  \<^verbatim>\<open>NV_VAR_LIST\<close> is a preprocessor list of identifiers, kept here as the list of
  their names in the order of the header.
\<close>

type_synonym enumerator = string

definition NV_VAR_LIST :: "enumerator list" where
  "NV_VAR_LIST =
    [''NV_STATIC_START_ID'', ''NV_STATIC_ADDR_RESERVED0'',
     ''VDG_ILOAD_CALIB_KTA_NV_ADDR'', ''VDG_ILOAD_CALIB_KTB_NV_ADDR'',
     ''RES_ILOAD_CALIB_ZERO_NV_ADDR'', ''NV_STATIC_ADDR_RESERVED1'',
     ''NV_STATIC_ADDR_RESERVED2'', ''NV_STATIC_ADDR_RESERVED3'',
     ''NV_STATIC_ADDR_RESERVED4'', ''NV_STATIC_ADDR_RESERVED5'',
     ''NV_STATIC_ADDR_RESERVED6'', ''NV_STATIC_ADDR_RESERVED7'',
     ''NV_STATIC_ADDR_RESERVED8'', ''NV_STATIC_ADDR_RESERVED9'',
     ''NV_STATIC_ADDR_RESERVED10'', ''NV_STATIC_ADDR_RESERVED11'',
     ''NV_STATIC_ADDR_RESERVED12'', ''NV_START_ID'',
     ''NV_ADDR_RESERVED0'', ''BAT_PROFILE_NV_ADDR'',
     ''BAT_CAPACITY_NV_ADDR'', ''CHARGE_CURRENT_NV_ADDR'',
     ''CHARGE_TERM_CURRENT_NV_ADDR'', ''BAT_REG_VOLTAGE_NV_ADDR'',
     ''BAT_CUTOFF_VOLTAGE_NV_ADDR'', ''BAT_TEMP_COLD_NV_ADDR'',
     ''BAT_TEMP_COOL_NV_ADDR'', ''BAT_TEMP_WARM_NV_ADDR'',
     ''BAT_TEMP_HOT_NV_ADDR'', ''BAT_NTC_B_NV_ADDR'',
     ''BAT_NTC_RESISTANCE_NV_ADDR'', ''BAT_NTC_CRC_NV_ADDR'',
     ''FUEL_GAUGE_CONFIG_NV_ADDR'', ''CHARGING_CONFIG_NV_ADDR'',
     ''CHARGER_INPUTS_CONFIG_NV_ADDR'', ''WATCHDOG_CONFIGL_NV_ADDR'',
     ''NV_ADDR_RESERVED5'', ''BUTTON_PRESS_FUNC_SW1'',
     ''BUTTON_PRESS_CONFIG_SW1'', ''BUTTON_RELEASE_FUNC_SW1'',
     ''BUTTON_RELEASE_CONFIG_SW1'', ''BUTTON_SINGLE_PRESS_FUNC_SW1'',
     ''BUTTON_SINGLE_PRESS_CONFIG_SW1'', ''BUTTON_DOUBLE_PRESS_FUNC_SW1'',
     ''BUTTON_DOUBLE_PRESS_CONFIG_SW1'', ''BUTTON_LONG_PRESS1_FUNC_SW1'',
     ''BUTTON_LONG_PRESS1_CONFIG_SW1'', ''BUTTON_LONG_PRESS2_FUNC_SW1'',
     ''BUTTON_LONG_PRESS2_CONFIG_SW1'', ''WAKEUPONCHARGE_CONFIG_NV_ADDR'',
     ''BUTTON_PRESS_FUNC_SW2'', ''BUTTON_PRESS_CONFIG_SW2'',
     ''BUTTON_RELEASE_FUNC_SW2'', ''BUTTON_RELEASE_CONFIG_SW2'',
     ''BUTTON_SINGLE_PRESS_FUNC_SW2'', ''BUTTON_SINGLE_PRESS_CONFIG_SW2'',
     ''BUTTON_DOUBLE_PRESS_FUNC_SW2'', ''BUTTON_DOUBLE_PRESS_CONFIG_SW2'',
     ''BUTTON_LONG_PRESS1_FUNC_SW2'', ''BUTTON_LONG_PRESS1_CONFIG_SW2'',
     ''BUTTON_LONG_PRESS2_FUNC_SW2'', ''BUTTON_LONG_PRESS2_CONFIG_SW2'',
     ''NV_ADDR_RESERVED7'', ''BUTTON_PRESS_FUNC_SW3'',
     ''BUTTON_PRESS_CONFIG_SW3'', ''BUTTON_RELEASE_FUNC_SW3'',
     ''BUTTON_RELEASE_CONFIG_SW3'', ''BUTTON_SINGLE_PRESS_FUNC_SW3'',
     ''BUTTON_SINGLE_PRESS_CONFIG_SW3'', ''BUTTON_DOUBLE_PRESS_FUNC_SW3'',
     ''BUTTON_DOUBLE_PRESS_CONFIG_SW3'', ''BUTTON_LONG_PRESS1_FUNC_SW3'',
     ''BUTTON_LONG_PRESS1_CONFIG_SW3'', ''BUTTON_LONG_PRESS2_FUNC_SW3'',
     ''BUTTON_LONG_PRESS2_CONFIG_SW3'', ''NV_ADDR_RESERVED8'',
     ''NV_LED_FUNC_1'', ''NV_LED_PARAM_R_1'',
     ''NV_LED_PARAM_G_1'', ''NV_LED_PARAM_B_1'',
     ''NV_LED_FUNC_2'', ''NV_LED_PARAM_R_2'',
     ''NV_LED_PARAM_G_2'', ''NV_LED_PARAM_B_2'',
     ''NV_ADDR_RESERVED9'', ''NV_ADDR_RESERVED10'',
     ''POWER_REGULATOR_CONFIG_NV_ADDR'', ''NV_RUN_PIN_CONFIG'',
     ''NV_ADDR_RESERVED11'', ''OWN_ADDRESS1_NV_ADDR'',
     ''OWN_ADDRESS2_NV_ADDR'', ''ID_EEPROM_ADR_NV_ADDR'',
     ''NV_ADDR_RESERVED12'', ''IO_CONFIG1_NV_ADDR'',
     ''IO_CONFIG1_PARAM1_NV_ADDR'', ''IO_CONFIG1_PARAM2_NV_ADDR'',
     ''IO_CONFIG2_NV_ADDR'', ''IO_CONFIG2_PARAM1_NV_ADDR'',
     ''IO_CONFIG2_PARAM2_NV_ADDR'', ''NV_ADDR_RESERVED13'',
     ''BAT_CHEMISTRY_NV_ADDR'', ''BAT_OCV10L_NV_ADDR'',
     ''BAT_OCV10H_NV_ADDR'', ''BAT_OCV50L_NV_ADDR'',
     ''BAT_OCV50H_NV_ADDR'', ''BAT_OCV90L_NV_ADDR'',
     ''BAT_OCV90H_NV_ADDR'', ''BAT_R10L_NV_ADDR'',
     ''BAT_R10H_NV_ADDR'', ''BAT_R50L_NV_ADDR'',
     ''BAT_R50H_NV_ADDR'', ''BAT_R90L_NV_ADDR'',
     ''BAT_R90H_NV_ADDR'', ''WATCHDOG_CONFIGH_NV_ADDR'',
     ''ISENSE_RES_SPAN_L'', ''ISENSE_RES_SPAN_H'']"

definition NV_STATIC_START_ID :: enumerator where
  "NV_STATIC_START_ID = ''NV_STATIC_START_ID''"

definition NV_START_ID :: enumerator where
  "NV_START_ID = ''NV_START_ID''"

definition NV_VAR_NUM :: enumerator where
  "NV_VAR_NUM = ''NV_VAR_NUM''"

text \<open>
  \<^verbatim>\<open>typedef enum { NV_VAR_LIST, NV_VAR_NUM } NvVarId_T;\<close>
  No enumerator has an initialiser, so C gives the first one the value 0 and every
  other one the value of its predecessor plus one.
\<close>

definition NvVarId_T_enumerators :: "enumerator list" where
  "NvVarId_T_enumerators = NV_VAR_LIST @ [NV_VAR_NUM]"

fun enum_values :: "nat \<Rightarrow> enumerator list \<Rightarrow> (enumerator \<times> nat) list" where
  "enum_values n [] = []"
| "enum_values n (x # xs) = (x, n) # enum_values (Suc n) xs"

definition NvVarId_T :: "enumerator \<Rightarrow> nat option" where
  "NvVarId_T x = map_of (enum_values 0 NvVarId_T_enumerators) x"

text \<open>
  The store's functions take the id as \<^verbatim>\<open>const uint16_t address\<close>: the virtual
  address of a variable is its enumeration value converted to 16 bits.
\<close>

definition virtual_address :: "enumerator \<Rightarrow> u16 option" where
  "virtual_address x = map_option word_of_nat (NvVarId_T x)"

text \<open>
  The two marker entries split the list: from \<^verbatim>\<open>NV_STATIC_START_ID\<close> ("static
  variables are not deleted when reset to default") up to \<^verbatim>\<open>NV_START_ID\<close>
  ("starting id of variables") lies the static region, after it the regular one.
\<close>

definition static_region :: "enumerator list" where
  "static_region =
     takeWhile (\<lambda>x. x \<noteq> NV_START_ID) (dropWhile (\<lambda>x. x \<noteq> NV_STATIC_START_ID) NV_VAR_LIST)"

definition regular_region :: "enumerator list" where
  "regular_region = tl (dropWhile (\<lambda>x. x \<noteq> NV_START_ID) NV_VAR_LIST)"

section \<open>osloop.c: the service scheduler\<close>

subsection \<open>Collaborators\<close>

text \<open>
  The routines of the six modules included by \<^verbatim>\<open>osloop.c\<close> are external; a call
  \<^verbatim>\<open>ADC_Init(sysTime)\<close> is recorded as \<open>Init ADC sysTime\<close>, \<^verbatim>\<open>LED_Shutdown()\<close> as
  \<open>Shutdown LED\<close>, and so on. \<^verbatim>\<open>NvTask\<close> is the drain task declared in \<^verbatim>\<open>nv.h\<close>.
  The scheduler's effect on its collaborators is the sequence of calls it makes; the
  collaborators do not touch the scheduler's static variables or its timer.
\<close>

datatype module = ADC | IODRV | ANALOG | I2CDRV | HOSTCOMMS | LED

datatype call =
    Init module u32
  | Service module u32
  | Shutdown module
  | NvTask

text \<open>
  The bit masks \<^verbatim>\<open>TIM_CR1_CEN\<close> and \<^verbatim>\<open>TIM_IT_UPDATE\<close> come from the vendor's
  hardware abstraction layer, which is not part of the sources; every operation takes
  them as a parameter.
\<close>

record hal =
  TIM_CR1_CEN :: u32
  TIM_IT_UPDATE :: u32

text \<open>The values the STM32 headers give the two masks, for concrete evaluation.\<close>

definition stm32 :: hal where
  "stm32 = \<lparr>TIM_CR1_CEN = 0x0001, TIM_IT_UPDATE = 0x0001\<rparr>"

subsection \<open>State\<close>

text \<open>
  The module's two static variables, the three registers of \<^verbatim>\<open>TIMER_OSLOOP\<close> that the
  code writes, and the calls made so far. The registers are 32 bits wide, as the
  arithmetic on \<^verbatim>\<open>uint32_t\<close> around them.
\<close>

definition OSLOOP_LOOP_TRACKER_COUNT :: u32 where
  "OSLOOP_LOOP_TRACKER_COUNT = 16"

record osloop =
  m_osloopTimeTrack :: "u32 list"
  m_osloopTimeTrackIdx :: u32
  CR1 :: u32
  DIER :: u32
  SR :: u32
  calls :: "call list"

text \<open>
  The state at start-up: static storage is zero-initialised
  (\<^verbatim>\<open>m_osloopTimeTrackIdx = 0u\<close>, an array of \<^verbatim>\<open>OSLOOP_LOOP_TRACKER_COUNT\<close> zeros),
  the timer registers hold their reset value and nothing has been called.
\<close>

definition osloop_boot :: osloop where
  "osloop_boot =
     \<lparr>m_osloopTimeTrack = replicate (unat OSLOOP_LOOP_TRACKER_COUNT) 0,
      m_osloopTimeTrackIdx = 0,
      CR1 = 0, DIER = 0, SR = 0,
      calls = []\<rparr>"

subsection \<open>Operations\<close>

text \<open>
  \<^verbatim>\<open>OSLOOP_Service\<close>. The value of \<^verbatim>\<open>HAL_GetTick()\<close> and the two reads of the
  free-running counter \<^verbatim>\<open>TIMER_OSLOOP->CNT\<close> are inputs. A store outside the array
  is undefined behaviour in C: the result is \<open>None\<close>.
\<close>

definition OSLOOP_Service :: "u32 \<Rightarrow> u32 \<Rightarrow> u32 \<Rightarrow> osloop \<Rightarrow> osloop option" where
  "OSLOOP_Service sysTime timeIn timeOut s =
     (let s1 = s\<lparr>calls := calls s @
                  [Service ADC sysTime, Service IODRV sysTime, Service ANALOG sysTime,
                   Service I2CDRV sysTime, Service HOSTCOMMS sysTime,
                   Service LED sysTime]\<rparr>
      in if unat (m_osloopTimeTrackIdx s1) < length (m_osloopTimeTrack s1) then
           let s2 = s1\<lparr>m_osloopTimeTrack :=
                         (m_osloopTimeTrack s1)[unat (m_osloopTimeTrackIdx s1) := timeOut - timeIn]\<rparr>;
               s3 = s2\<lparr>m_osloopTimeTrackIdx := m_osloopTimeTrackIdx s2 + 1\<rparr>
           in Some (if OSLOOP_LOOP_TRACKER_COUNT = m_osloopTimeTrackIdx s3
                    then s3\<lparr>m_osloopTimeTrackIdx := 0\<rparr> else s3)
         else None)"

text \<open>\<^verbatim>\<open>OSLOOP_TIMER_IRQHandler\<close>: the service, then the status flag is cleared.\<close>

definition OSLOOP_TIMER_IRQHandler :: "hal \<Rightarrow> u32 \<Rightarrow> u32 \<Rightarrow> u32 \<Rightarrow> osloop \<Rightarrow> osloop option" where
  "OSLOOP_TIMER_IRQHandler h sysTime timeIn timeOut s =
     (case OSLOOP_Service sysTime timeIn timeOut s of
        None \<Rightarrow> None
      | Some s' \<Rightarrow> Some (s'\<lparr>SR := SR s' AND NOT (TIM_IT_UPDATE h)\<rparr>))"

definition OSLOOP_Init :: "hal \<Rightarrow> u32 \<Rightarrow> osloop \<Rightarrow> osloop" where
  "OSLOOP_Init h sysTime s =
     (let s1 = s\<lparr>calls := calls s @
                  [Init ADC sysTime, Init IODRV sysTime, Init ANALOG sysTime,
                   Init I2CDRV sysTime, Init HOSTCOMMS sysTime, Init LED sysTime]\<rparr>;
          s2 = s1\<lparr>CR1 := CR1 s1 OR TIM_CR1_CEN h\<rparr>
      in s2\<lparr>DIER := DIER s2 OR TIM_IT_UPDATE h\<rparr>)"

definition OSLOOP_Shutdown :: "hal \<Rightarrow> osloop \<Rightarrow> osloop" where
  "OSLOOP_Shutdown h s =
     (let s1 = s\<lparr>DIER := DIER s AND NOT (TIM_IT_UPDATE h)\<rparr>
      in s1\<lparr>calls := calls s1 @
                [Shutdown ADC, Shutdown IODRV, Shutdown ANALOG, Shutdown I2CDRV,
                 Shutdown LED]\<rparr>)"

definition OSLOOP_Restart :: "hal \<Rightarrow> u32 \<Rightarrow> osloop \<Rightarrow> osloop" where
  "OSLOOP_Restart h sysTime s =
     (let s1 = s\<lparr>calls := calls s @
                  [Init ADC sysTime, Init IODRV sysTime, Init ANALOG sysTime,
                   Init I2CDRV sysTime, Init LED sysTime]\<rparr>;
          s2 = s1\<lparr>CR1 := CR1 s1 OR TIM_CR1_CEN h\<rparr>
      in s2\<lparr>DIER := DIER s2 OR TIM_IT_UPDATE h\<rparr>)"

definition OSLOOP_AtomicAccess :: "hal \<Rightarrow> bool \<Rightarrow> osloop \<Rightarrow> osloop" where
  "OSLOOP_AtomicAccess h access s =
     (if True = access
      then s\<lparr>DIER := DIER s AND NOT (TIM_IT_UPDATE h)\<rparr>
      else s\<lparr>DIER := DIER s OR TIM_IT_UPDATE h\<rparr>)"

subsection \<open>Runs of the module\<close>

text \<open>
  Any use of the module is a sequence of calls of its six functions, each with the
  values it reads from the environment.
\<close>

datatype entry =
    TIMER_IRQ u32 u32 u32
  | INIT u32
  | SERVICE u32 u32 u32
  | SHUTDOWN
  | RESTART u32
  | ATOMIC_ACCESS bool

fun osloop_call :: "hal \<Rightarrow> entry \<Rightarrow> osloop \<Rightarrow> osloop option" where
  "osloop_call h (TIMER_IRQ t ci co) s = OSLOOP_TIMER_IRQHandler h t ci co s"
| "osloop_call h (INIT t) s = Some (OSLOOP_Init h t s)"
| "osloop_call h (SERVICE t ci co) s = OSLOOP_Service t ci co s"
| "osloop_call h SHUTDOWN s = Some (OSLOOP_Shutdown h s)"
| "osloop_call h (RESTART t) s = Some (OSLOOP_Restart h t s)"
| "osloop_call h (ATOMIC_ACCESS b) s = Some (OSLOOP_AtomicAccess h b s)"

fun osloop_run :: "hal \<Rightarrow> entry list \<Rightarrow> osloop \<Rightarrow> osloop option" where
  "osloop_run h [] s = Some s"
| "osloop_run h (e # es) s =
     (case osloop_call h e s of None \<Rightarrow> None | Some s' \<Rightarrow> osloop_run h es s')"

subsection \<open>Dispatch of the periodic interrupt\<close>

text \<open>
  Modelled from the spec: the timer hardware is not part of the sources. The spec's
  gate "disables the periodic interrupt" by clearing the update-interrupt enable and
  "re-enables it" by setting it: a timer period runs the interrupt handler when the
  enable bit of \<^verbatim>\<open>DIER\<close> is set and leaves the state alone when it is clear.
\<close>

definition update_irq_enabled :: "hal \<Rightarrow> osloop \<Rightarrow> bool" where
  "update_irq_enabled h s = (DIER s AND TIM_IT_UPDATE h \<noteq> 0)"

definition timer_period :: "hal \<Rightarrow> u32 \<times> u32 \<times> u32 \<Rightarrow> osloop \<Rightarrow> osloop option" where
  "timer_period h p s =
     (case p of (sysTime, timeIn, timeOut) \<Rightarrow>
        if update_irq_enabled h s then OSLOOP_TIMER_IRQHandler h sysTime timeIn timeOut s
        else Some s)"

text \<open>
  Modelled from the spec: "the periodic timer interrupt is the only source of
  concurrency" in a single-threaded system. What happens to the module is a sequence of
  events, each either a call made by foreground code or a timer period elapsing.
\<close>

datatype event =
    FOREGROUND entry
  | PERIOD u32 u32 u32

fun system_step :: "hal \<Rightarrow> event \<Rightarrow> osloop \<Rightarrow> osloop option" where
  "system_step h (FOREGROUND e) s = osloop_call h e s"
| "system_step h (PERIOD sysTime timeIn timeOut) s = timer_period h (sysTime, timeIn, timeOut) s"

fun system_run :: "hal \<Rightarrow> event list \<Rightarrow> osloop \<Rightarrow> osloop option" where
  "system_run h [] s = Some s"
| "system_run h (e # es) s =
     (case system_step h e s of None \<Rightarrow> None | Some s' \<Rightarrow> system_run h es s')"

text \<open>
  The events that neither set the update-interrupt enable nor are a run of the service
  itself: timer periods, \<^verbatim>\<open>OSLOOP_Shutdown\<close> and \<^verbatim>\<open>OSLOOP_AtomicAccess(true)\<close>.
  \<^verbatim>\<open>OSLOOP_Init\<close>, \<^verbatim>\<open>OSLOOP_Restart\<close> and \<^verbatim>\<open>OSLOOP_AtomicAccess(false)\<close> all end
  with \<^verbatim>\<open>DIER |= TIM_IT_UPDATE\<close>.
\<close>

fun keeps_masked :: "event \<Rightarrow> bool" where
  "keeps_masked (PERIOD sysTime timeIn timeOut) = True"
| "keeps_masked (FOREGROUND SHUTDOWN) = True"
| "keeps_masked (FOREGROUND (ATOMIC_ACCESS access)) = access"
| "keeps_masked (FOREGROUND e) = False"

text \<open>The calls that belong to the periodic service: a module's service routine, or the
  drain task.\<close>

fun periodic_call :: "call \<Rightarrow> bool" where
  "periodic_call (Service m sysTime) = True"
| "periodic_call NvTask = True"
| "periodic_call c = False"

subsection \<open>The tracker invariant\<close>

text \<open>The index addresses an element of the array, and the array has its declared size.\<close>

definition tracker_ok :: "osloop \<Rightarrow> bool" where
  "tracker_ok s \<longleftrightarrow>
     m_osloopTimeTrackIdx s < OSLOOP_LOOP_TRACKER_COUNT \<and>
     length (m_osloopTimeTrack s) = unat OSLOOP_LOOP_TRACKER_COUNT"

section \<open>Properties of the record codec\<close>

lemma low_byte_mask: "(0xFF::u32) = mask 8"
  by (simp add: mask_eq_exp_minus_1)

text \<open>The macro, bit by bit: each of the high eight bits is the negation of the bit
  eight places below it.\<close>

lemma valid_bits: "NV_IS_VARIABLE_VALID r \<longleftrightarrow> (\<forall>n<8. bit r (8 + n) = (\<not> bit r n))"
  unfolding NV_IS_VARIABLE_VALID_def low_byte_mask
  apply (simp add: bit_eq_iff bit_simps)
  apply (rule iffI)
  subgoal
    apply clarify
    subgoal for n by (drule spec[of _ n]) auto
    done
  subgoal
    apply clarify
    subgoal for n by (cases "n < 8") (auto dest: bit_imp_le_length)
    done
  done

lemma valid_iff_complement: "NV_IS_VARIABLE_VALID r \<longleftrightarrow> checksum r = NOT (payload r)"
  unfolding valid_bits checksum_def payload_def
  by (auto simp add: bit_eq_iff bit_simps)

lemma checksum_encode: "checksum (encode p) = NOT p"
  unfolding checksum_def encode_def
  by (auto simp add: bit_eq_iff bit_simps dest: bit_imp_le_length)

lemma payload_encode: "payload (encode p) = p"
  unfolding payload_def encode_def
  by (simp add: bit_eq_iff bit_simps)

text \<open>
  C1. For every payload byte \<open>p\<close>, the high byte of \<open>encode p\<close> is the bitwise
  complement of \<open>p\<close> and its low byte is \<open>p\<close>; \<^verbatim>\<open>NV_IS_VARIABLE_VALID\<close> holds of
  \<open>encode p\<close>, and decoding it succeeds with \<open>p\<close>.
\<close>

theorem codec_round_trip:
  "checksum (encode p) = NOT p \<and> payload (encode p) = p \<and>
   NV_IS_VARIABLE_VALID (encode p) \<and> decode (encode p) = Inr p"
  by (simp add: decode_def valid_iff_complement checksum_encode payload_encode)

text \<open>
  C2. A 16-bit record passes \<^verbatim>\<open>NV_IS_VARIABLE_VALID\<close> exactly when its high byte is
  the bitwise complement of its low byte; decoding fails with \<open>Invalid\<close> exactly when
  it is not, and returns the low byte otherwise. The erased pattern \<open>0xFFFF\<close> is
  invalid.
\<close>

theorem invalid_record_rejected:
  "(NV_IS_VARIABLE_VALID r \<longleftrightarrow> checksum r = NOT (payload r)) \<and>
   (decode r = Inl Invalid \<longleftrightarrow> checksum r \<noteq> NOT (payload r)) \<and>
   (decode r = Inr (payload r) \<longleftrightarrow> checksum r = NOT (payload r)) \<and>
   \<not> NV_IS_VARIABLE_VALID 0xFFFF \<and> decode 0xFFFF = Inl Invalid"
proof -
  have "checksum (0xFFFF :: u16) \<noteq> NOT (payload 0xFFFF)"
    by (simp add: checksum_def payload_def)
  then show ?thesis
    by (simp add: decode_def valid_iff_complement)
qed

theorem invalid_record_rejected_witness:
  "checksum (0x1234 :: u16) \<noteq> NOT (payload 0x1234) \<and> decode 0x1234 = Inl Invalid"
  using invalid_record_rejected [of "0x1234"]
  by (simp add: checksum_def payload_def)

section \<open>Properties of the initialisation sentinel\<close>

text \<open>
  C8. The data counts as initialised exactly when the 16-bit init flag differs from
  \<open>0xFFFF\<close>; the constant \<^verbatim>\<open>NV_VARIABLE_NON_STORED\<close>, written \<^verbatim>\<open>0xffffffff\<close> and
  cast to 16 bits, is that same all-ones value.
\<close>

theorem initialized_iff_not_sentinel:
  "(NV_IS_DATA_INITIALIZED nvInitFlag \<longleftrightarrow> nvInitFlag \<noteq> 0xFFFF) \<and>
   NV_VARIABLE_NON_STORED = 0xFFFF \<and>
   (NV_IS_DATA_INITIALIZED nvInitFlag \<longleftrightarrow> nvInitFlag \<noteq> NV_VARIABLE_NON_STORED)"
proof -
  have "uint nvInitFlag = 0xffff \<longleftrightarrow> nvInitFlag = 0xFFFF"
    by (simp add: word_uint_eq_iff)
  moreover have "NV_VARIABLE_NON_STORED = 0xFFFF"
    by (simp add: NV_VARIABLE_NON_STORED_def)
  ultimately show ?thesis
    by (simp add: NV_IS_DATA_INITIALIZED_def)
qed

section \<open>Properties of the variable catalogue\<close>

lemma map_fst_enum_values: "map fst (enum_values n xs) = xs"
  by (induction xs arbitrary: n) auto

text \<open>In a list without repetition the \<open>i\<close>-th enumerator gets the start value plus \<open>i\<close>.\<close>

lemma enum_values_nth:
  "distinct xs \<Longrightarrow> i < length xs \<Longrightarrow> map_of (enum_values n xs) (xs ! i) = Some (n + i)"
proof (induction xs arbitrary: n i)
  case Nil
  then show ?case by simp
next
  case (Cons x xs)
  show ?case
  proof (cases i)
    case 0
    then show ?thesis by simp
  next
    case (Suc j)
    with Cons.prems have "xs ! j \<noteq> x" "j < length xs" "distinct xs"
      by auto
    with Cons.IH [of j "Suc n"] Suc show ?thesis by simp
  qed
qed

lemma distinct_enumerators: "distinct NvVarId_T_enumerators"
  unfolding NvVarId_T_enumerators_def NV_VAR_LIST_def NV_VAR_NUM_def
  by code_simp

lemma length_NV_VAR_LIST: "length NV_VAR_LIST = 116"
  unfolding NV_VAR_LIST_def by simp

lemma static_region_take: "static_region = take 17 NV_VAR_LIST"
  unfolding static_region_def NV_VAR_LIST_def NV_START_ID_def NV_STATIC_START_ID_def
  by code_simp

lemma regular_region_drop: "regular_region = drop 18 NV_VAR_LIST"
  unfolding regular_region_def NV_VAR_LIST_def NV_START_ID_def NV_STATIC_START_ID_def
  by code_simp

lemma start_id_nth: "NV_VAR_LIST ! 17 = NV_START_ID"
  unfolding NV_VAR_LIST_def NV_START_ID_def by simp

lemma enumerator_value:
  assumes "i < length NvVarId_T_enumerators"
  shows "NvVarId_T (NvVarId_T_enumerators ! i) = Some i"
  using enum_values_nth [OF distinct_enumerators assms, of 0]
  by (simp add: NvVarId_T_def)

lemma var_list_value:
  assumes "i < length NV_VAR_LIST"
  shows "NvVarId_T (NV_VAR_LIST ! i) = Some i"
  using enumerator_value [of i] assms
  by (simp add: NvVarId_T_enumerators_def nth_append)

lemma var_num_value: "NvVarId_T NV_VAR_NUM = Some (length NV_VAR_LIST)"
  using enumerator_value [of "length NV_VAR_LIST"]
  by (simp add: NvVarId_T_enumerators_def nth_append)

lemma start_id_value: "NvVarId_T NV_START_ID = Some 17"
  using var_list_value [of 17] by (simp add: length_NV_VAR_LIST start_id_nth)

lemma static_region_before:
  assumes "x \<in> set static_region"
  shows "\<exists>a. NvVarId_T x = Some a \<and> a < 17"
proof -
  from assms obtain i where i: "i < 17" "x = NV_VAR_LIST ! i"
    by (auto simp add: static_region_take in_set_conv_nth length_NV_VAR_LIST)
  with var_list_value [of i] show ?thesis
    by (simp add: length_NV_VAR_LIST)
qed

lemma regular_region_after:
  assumes "x \<in> set regular_region"
  shows "\<exists>a. NvVarId_T x = Some a \<and> 17 < a"
proof -
  from assms obtain j where j: "j < 98" "x = NV_VAR_LIST ! (18 + j)"
    by (auto simp add: regular_region_drop in_set_conv_nth length_NV_VAR_LIST)
  with var_list_value [of "18 + j"] show ?thesis
    by (simp add: length_NV_VAR_LIST)
qed

lemma address_fits: "i < 116 \<Longrightarrow> unat (word_of_nat i :: u16) = i"
  by (simp add: unat_of_nat)

text \<open>
  C9. Every entry of the catalogue has its zero-based position in \<^verbatim>\<open>NV_VAR_LIST\<close> as
  enumeration value, and that value is its 16-bit virtual address, unchanged by the
  conversion. \<^verbatim>\<open>NV_VAR_NUM\<close> is the number of entries, 116. The list is the static
  region, then \<^verbatim>\<open>NV_START_ID\<close>, then the regular region: every static id has a
  smaller value than \<^verbatim>\<open>NV_START_ID\<close> and every regular id a larger one.
\<close>

theorem catalogue_positions:
  "(\<forall>i < length NV_VAR_LIST.
      NvVarId_T (NV_VAR_LIST ! i) = Some i \<and>
      virtual_address (NV_VAR_LIST ! i) = Some (word_of_nat i) \<and>
      unat (word_of_nat i :: u16) = i) \<and>
   NvVarId_T NV_VAR_NUM = Some (length NV_VAR_LIST) \<and>
   length NV_VAR_LIST = 116 \<and>
   NV_VAR_LIST = static_region @ NV_START_ID # regular_region \<and>
   (\<forall>x \<in> set static_region. \<exists>a b.
      NvVarId_T x = Some a \<and> NvVarId_T NV_START_ID = Some b \<and> a < b) \<and>
   (\<forall>x \<in> set regular_region. \<exists>a b.
      NvVarId_T x = Some a \<and> NvVarId_T NV_START_ID = Some b \<and> b < a)"
proof -
  have split: "NV_VAR_LIST = static_region @ NV_START_ID # regular_region"
  proof -
    have "NV_VAR_LIST = take 17 NV_VAR_LIST @ NV_VAR_LIST ! 17 # drop 18 NV_VAR_LIST"
      using id_take_nth_drop [of 17 NV_VAR_LIST] by (simp add: length_NV_VAR_LIST)
    then show ?thesis
      by (simp add: static_region_take regular_region_drop start_id_nth)
  qed
  have pos: "\<forall>i < length NV_VAR_LIST.
      NvVarId_T (NV_VAR_LIST ! i) = Some i \<and>
      virtual_address (NV_VAR_LIST ! i) = Some (word_of_nat i) \<and>
      unat (word_of_nat i :: u16) = i"
    using var_list_value address_fits
    by (simp add: virtual_address_def length_NV_VAR_LIST)
  have st: "\<forall>x \<in> set static_region. \<exists>a b.
      NvVarId_T x = Some a \<and> NvVarId_T NV_START_ID = Some b \<and> a < b"
    using static_region_before by (simp add: start_id_value)
  have rg: "\<forall>x \<in> set regular_region. \<exists>a b.
      NvVarId_T x = Some a \<and> NvVarId_T NV_START_ID = Some b \<and> b < a"
    using regular_region_after by (simp add: start_id_value)
  from split pos st rg var_num_value length_NV_VAR_LIST show ?thesis
    by blast
qed

theorem catalogue_positions_witness:
  "(37::nat) < length NV_VAR_LIST \<and> NV_VAR_LIST ! 37 = ''BUTTON_PRESS_FUNC_SW1'' \<and>
   NvVarId_T ''BUTTON_PRESS_FUNC_SW1'' = Some 37 \<and>
   virtual_address ''BUTTON_PRESS_FUNC_SW1'' = Some 37 \<and>
   ''RES_ILOAD_CALIB_ZERO_NV_ADDR'' \<in> set static_region \<and>
   (\<exists>a b. NvVarId_T ''RES_ILOAD_CALIB_ZERO_NV_ADDR'' = Some a \<and>
      NvVarId_T NV_START_ID = Some b \<and> a < b) \<and>
   ''ISENSE_RES_SPAN_H'' \<in> set regular_region \<and>
   (\<exists>a b. NvVarId_T ''ISENSE_RES_SPAN_H'' = Some a \<and>
      NvVarId_T NV_START_ID = Some b \<and> b < a)"
proof -
  have n: "NV_VAR_LIST ! 37 = ''BUTTON_PRESS_FUNC_SW1''"
    by (simp add: NV_VAR_LIST_def)
  have s: "''RES_ILOAD_CALIB_ZERO_NV_ADDR'' \<in> set static_region"
    by (simp add: static_region_take NV_VAR_LIST_def)
  have r: "''ISENSE_RES_SPAN_H'' \<in> set regular_region"
    by (simp add: regular_region_drop NV_VAR_LIST_def)
  note c = catalogue_positions
  from c have l: "(37::nat) < length NV_VAR_LIST"
    by simp
  from c l have p: "NvVarId_T (NV_VAR_LIST ! 37) = Some 37 \<and>
      virtual_address (NV_VAR_LIST ! 37) = Some (word_of_nat 37)"
    by blast
  from c s have ps: "\<exists>a b. NvVarId_T ''RES_ILOAD_CALIB_ZERO_NV_ADDR'' = Some a \<and>
      NvVarId_T NV_START_ID = Some b \<and> a < b"
    by blast
  from c r have pr: "\<exists>a b. NvVarId_T ''ISENSE_RES_SPAN_H'' = Some a \<and>
      NvVarId_T NV_START_ID = Some b \<and> b < a"
    by blast
  from l n p ps pr s r show ?thesis
    by simp
qed

section \<open>Properties of the service scheduler\<close>

subsection \<open>The periodic service\<close>

text \<open>
  C4. A service call whose tracker index lies inside the array returns, and the calls
  it has added are the six service routines, once each, in the order ADC, I/O driver,
  analog, I2C driver, host comms, LED; the list depends on nothing in the state.
\<close>

theorem service_calls_in_order:
  assumes "unat (m_osloopTimeTrackIdx s) < length (m_osloopTimeTrack s)"
  shows "\<exists>s'. OSLOOP_Service sysTime timeIn timeOut s = Some s' \<and>
           calls s' = calls s @
             [Service ADC sysTime, Service IODRV sysTime, Service ANALOG sysTime,
              Service I2CDRV sysTime, Service HOSTCOMMS sysTime, Service LED sysTime] \<and>
           distinct (drop (length (calls s)) (calls s'))"
  using assms by (simp add: OSLOOP_Service_def Let_def)

theorem service_calls_in_order_witness:
  "unat (m_osloopTimeTrackIdx osloop_boot) < length (m_osloopTimeTrack osloop_boot) \<and>
   (\<exists>s'. OSLOOP_Service 7 100 130 osloop_boot = Some s' \<and>
      calls s' = calls osloop_boot @
        [Service ADC 7, Service IODRV 7, Service ANALOG 7,
         Service I2CDRV 7, Service HOSTCOMMS 7, Service LED 7] \<and>
      distinct (drop (length (calls osloop_boot)) (calls s')))"
proof -
  have b: "unat (m_osloopTimeTrackIdx osloop_boot) < length (m_osloopTimeTrack osloop_boot)"
    by (simp add: osloop_boot_def OSLOOP_LOOP_TRACKER_COUNT_def)
  show ?thesis
    using b service_calls_in_order [OF b, of 7 100 130] by simp
qed

text \<open>
  C3, as the code has it. Every run of the timer interrupt handler (with the tracker
  index inside the array) returns, and the routines it has called are the service
  routines of ADC, IODRV, ANALOG, I2CDRV, HOSTCOMMS and LED and no other: the drain
  task \<^verbatim>\<open>NvTask\<close> is not among them.
\<close>

theorem irq_runs_six_services_only:
  assumes "unat (m_osloopTimeTrackIdx s) < length (m_osloopTimeTrack s)"
  shows "\<exists>s' new. OSLOOP_TIMER_IRQHandler h sysTime timeIn timeOut s = Some s' \<and>
           calls s' = calls s @ new \<and>
           set new = (\<lambda>m. Service m sysTime) ` {ADC, IODRV, ANALOG, I2CDRV, HOSTCOMMS, LED} \<and>
           NvTask \<notin> set new"
  using assms by (auto simp add: OSLOOP_TIMER_IRQHandler_def OSLOOP_Service_def Let_def)

theorem irq_runs_six_services_only_witness:
  "unat (m_osloopTimeTrackIdx osloop_boot) < length (m_osloopTimeTrack osloop_boot) \<and>
   (\<exists>s' new. OSLOOP_TIMER_IRQHandler stm32 7 100 130 osloop_boot = Some s' \<and>
      calls s' = calls osloop_boot @ new \<and>
      set new = (\<lambda>m. Service m 7) ` {ADC, IODRV, ANALOG, I2CDRV, HOSTCOMMS, LED} \<and>
      NvTask \<notin> set new)"
proof -
  have b: "unat (m_osloopTimeTrackIdx osloop_boot) < length (m_osloopTimeTrack osloop_boot)"
    by (simp add: osloop_boot_def OSLOOP_LOOP_TRACKER_COUNT_def)
  show ?thesis
    using b irq_runs_six_services_only [OF b, of stm32 7 100 130] by simp
qed

text \<open>The first timer interrupt after start-up returns without having called the drain task.\<close>

theorem nvtask_not_dispatched:
  "OSLOOP_TIMER_IRQHandler stm32 0 0 0 osloop_boot \<noteq> None \<and>
   NvTask \<notin> set (calls (the (OSLOOP_TIMER_IRQHandler stm32 0 0 0 osloop_boot)))"
  by (simp add: OSLOOP_TIMER_IRQHandler_def OSLOOP_Service_def Let_def osloop_boot_def
      OSLOOP_LOOP_TRACKER_COUNT_def)

subsection \<open>The update-interrupt enable bit\<close>

lemma irq_clear: "(d AND NOT u) AND u = (0::u32)"
  by (simp add: bit_eq_iff bit_simps)

lemma irq_set: "(d OR u) AND u = (u::u32)"
  by (auto simp add: bit_eq_iff bit_simps)

lemma others_clear: "(d AND NOT u) AND NOT u = d AND NOT (u::u32)"
  by (auto simp add: bit_eq_iff bit_simps)

lemma others_set: "(d OR u) AND NOT u = d AND NOT (u::u32)"
  by (auto simp add: bit_eq_iff bit_simps)

text \<open>
  While the enable bit is clear, events that keep it clear run to the end, leave it
  clear, and add no call of the periodic service.
\<close>

lemma masked_step:
  assumes "\<not> update_irq_enabled h s" and "keeps_masked e"
  shows "\<exists>s'. system_step h e s = Some s' \<and> \<not> update_irq_enabled h s' \<and>
           filter periodic_call (calls s') = filter periodic_call (calls s)"
proof (cases e)
  case (PERIOD t ci co)
  with assms show ?thesis by (simp add: timer_period_def)
next
  case (FOREGROUND f)
  with assms show ?thesis
    by (cases f)
       (simp_all add: update_irq_enabled_def OSLOOP_Shutdown_def OSLOOP_AtomicAccess_def
          Let_def irq_clear)
qed

lemma masked_run:
  assumes "\<not> update_irq_enabled h s" and "list_all keeps_masked es"
  shows "\<exists>s'. system_run h es s = Some s' \<and> \<not> update_irq_enabled h s' \<and>
           filter periodic_call (calls s') = filter periodic_call (calls s)"
  using assms
proof (induction es arbitrary: s)
  case Nil
  then show ?case by simp
next
  case (Cons e es)
  from Cons.prems have e: "keeps_masked e" and es: "list_all keeps_masked es"
    by simp_all
  from masked_step [OF Cons.prems(1) e] obtain s1 where
    s1: "system_step h e s = Some s1" "\<not> update_irq_enabled h s1"
        "filter periodic_call (calls s1) = filter periodic_call (calls s)" by blast
  from Cons.IH [OF s1(2) es] s1(1) s1(3) show ?case by simp
qed

subsection \<open>Init, restart and shutdown\<close>

text \<open>
  C5, as the code has it. Restart calls the init routines of ADC, IODRV, ANALOG, I2CDRV
  and LED with the current tick, in the order init does, and does not call the one of
  HOSTCOMMS: the state after restart is the state after init with that one call taken
  out. Like init, it sets the counter enable and the update-interrupt enable of the
  timer.
\<close>

theorem restart_is_init_without_hostcomms:
  "calls (OSLOOP_Init h sysTime s) = calls s @
     [Init ADC sysTime, Init IODRV sysTime, Init ANALOG sysTime, Init I2CDRV sysTime,
      Init HOSTCOMMS sysTime, Init LED sysTime] \<and>
   calls (OSLOOP_Restart h sysTime s) = calls s @
     [Init ADC sysTime, Init IODRV sysTime, Init ANALOG sysTime, Init I2CDRV sysTime,
      Init LED sysTime] \<and>
   OSLOOP_Restart h sysTime s =
     (OSLOOP_Init h sysTime s)\<lparr>calls := calls s @
        filter (\<lambda>c. c \<noteq> Init HOSTCOMMS sysTime)
          (drop (length (calls s)) (calls (OSLOOP_Init h sysTime s)))\<rparr> \<and>
   CR1 (OSLOOP_Restart h sysTime s) AND TIM_CR1_CEN h = TIM_CR1_CEN h \<and>
   DIER (OSLOOP_Restart h sysTime s) AND TIM_IT_UPDATE h = TIM_IT_UPDATE h"
  by (simp add: OSLOOP_Init_def OSLOOP_Restart_def Let_def irq_set)

text \<open>From the start-up state, init initialises host comms and restart does not.\<close>

theorem restart_skips_hostcomms:
  "Init HOSTCOMMS 0 \<in> set (calls (OSLOOP_Init stm32 0 osloop_boot)) \<and>
   Init HOSTCOMMS 0 \<notin> set (calls (OSLOOP_Restart stm32 0 osloop_boot)) \<and>
   OSLOOP_Restart stm32 0 osloop_boot \<noteq> OSLOOP_Init stm32 0 osloop_boot"
proof -
  have a: "Init HOSTCOMMS 0 \<in> set (calls (OSLOOP_Init stm32 0 osloop_boot))"
    by (simp add: OSLOOP_Init_def Let_def osloop_boot_def)
  have b: "Init HOSTCOMMS 0 \<notin> set (calls (OSLOOP_Restart stm32 0 osloop_boot))"
    by (simp add: OSLOOP_Restart_def Let_def osloop_boot_def)
  from a b have "OSLOOP_Restart stm32 0 osloop_boot \<noteq> OSLOOP_Init stm32 0 osloop_boot"
    by metis
  with a b show ?thesis by simp
qed

text \<open>
  C6, as the code has it. After shutdown the update-interrupt enable is clear, and the
  calls shutdown has added are the shutdown routines of ADC, IODRV, ANALOG, I2CDRV and
  LED, in that order; host comms is not shut down. From then on, as long as no call
  sets the enable again, every sequence of timer periods, further shutdowns and gate
  acquires runs to the end with the enable clear and without one call of the periodic
  service. A restart sets the enable again.
\<close>

theorem shutdown_masks_irq_and_stops_five:
  "DIER (OSLOOP_Shutdown h s) AND TIM_IT_UPDATE h = 0 \<and>
   \<not> update_irq_enabled h (OSLOOP_Shutdown h s) \<and>
   calls (OSLOOP_Shutdown h s) = calls s @
     [Shutdown ADC, Shutdown IODRV, Shutdown ANALOG, Shutdown I2CDRV, Shutdown LED] \<and>
   (list_all keeps_masked es \<longrightarrow>
      (\<exists>s'. system_run h es (OSLOOP_Shutdown h s) = Some s' \<and>
         \<not> update_irq_enabled h s' \<and>
         filter periodic_call (calls s') = filter periodic_call (calls s))) \<and>
   DIER (OSLOOP_Restart h sysTime (OSLOOP_Shutdown h s)) AND TIM_IT_UPDATE h = TIM_IT_UPDATE h"
proof -
  have d: "\<not> update_irq_enabled h (OSLOOP_Shutdown h s)"
    by (simp add: update_irq_enabled_def OSLOOP_Shutdown_def Let_def irq_clear)
  have c: "filter periodic_call (calls (OSLOOP_Shutdown h s)) = filter periodic_call (calls s)"
    by (simp add: OSLOOP_Shutdown_def Let_def)
  have r: "list_all keeps_masked es \<longrightarrow>
      (\<exists>s'. system_run h es (OSLOOP_Shutdown h s) = Some s' \<and>
         \<not> update_irq_enabled h s' \<and>
         filter periodic_call (calls s') = filter periodic_call (calls s))"
    using masked_run [OF d, of es] c by simp
  have "DIER (OSLOOP_Shutdown h s) AND TIM_IT_UPDATE h = 0 \<and>
   calls (OSLOOP_Shutdown h s) = calls s @
     [Shutdown ADC, Shutdown IODRV, Shutdown ANALOG, Shutdown I2CDRV, Shutdown LED] \<and>
   DIER (OSLOOP_Restart h sysTime (OSLOOP_Shutdown h s)) AND TIM_IT_UPDATE h = TIM_IT_UPDATE h"
    by (simp add: OSLOOP_Shutdown_def OSLOOP_Restart_def Let_def irq_set irq_clear)
  with d r show ?thesis by blast
qed

theorem shutdown_masks_irq_and_stops_five_witness:
  "list_all keeps_masked
     [PERIOD 1 10 20, FOREGROUND (ATOMIC_ACCESS True), PERIOD 2 30 45, PERIOD 3 5 9] \<and>
   (\<exists>s'. system_run stm32
            [PERIOD 1 10 20, FOREGROUND (ATOMIC_ACCESS True), PERIOD 2 30 45, PERIOD 3 5 9]
            (OSLOOP_Shutdown stm32 (OSLOOP_Init stm32 0 osloop_boot)) = Some s' \<and>
      \<not> update_irq_enabled stm32 s' \<and>
      filter periodic_call (calls s') =
        filter periodic_call (calls (OSLOOP_Init stm32 0 osloop_boot)))"
proof -
  have k: "list_all keeps_masked
     [PERIOD 1 10 20, FOREGROUND (ATOMIC_ACCESS True), PERIOD 2 30 45, PERIOD 3 5 9]"
    by simp
  from shutdown_masks_irq_and_stops_five [of stm32 "OSLOOP_Init stm32 0 osloop_boot"
      "[PERIOD 1 10 20, FOREGROUND (ATOMIC_ACCESS True), PERIOD 2 30 45, PERIOD 3 5 9]"] k
  show ?thesis by blast
qed

text \<open>
  Shutdown from the start-up state makes no shutdown call to host comms; and a gate
  release after it, with no restart, sets the enable, so that the next timer period
  runs the service.
\<close>

theorem shutdown_skips_hostcomms_and_release_unmasks:
  "Shutdown HOSTCOMMS \<notin> set (calls (OSLOOP_Shutdown stm32 osloop_boot)) \<and>
   system_run stm32
     [FOREGROUND SHUTDOWN, FOREGROUND (ATOMIC_ACCESS False), PERIOD 0 0 0] osloop_boot \<noteq> None \<and>
   Service ADC 0 \<in> set (calls (the (system_run stm32
     [FOREGROUND SHUTDOWN, FOREGROUND (ATOMIC_ACCESS False), PERIOD 0 0 0] osloop_boot)))"
  by (simp add: timer_period_def update_irq_enabled_def OSLOOP_AtomicAccess_def
      OSLOOP_Shutdown_def OSLOOP_TIMER_IRQHandler_def OSLOOP_Service_def Let_def
      osloop_boot_def stm32_def OSLOOP_LOOP_TRACKER_COUNT_def)


subsection \<open>The atomic-access gate\<close>

text \<open>
  C7, as the code has it. Whatever the state before, the gate called with true leaves
  the update-interrupt enable clear and called with false leaves it set; it changes no
  other bit of \<^verbatim>\<open>DIER\<close> and nothing else. From an acquire on, as long as no call sets
  the enable again (any release of the gate, an init or a restart), every sequence of
  timer periods, shutdowns and further acquires runs to the end with the enable clear
  and without one call of the periodic service, the drain task included.
\<close>

theorem atomic_access_gates_irq:
  "DIER (OSLOOP_AtomicAccess h True s) AND TIM_IT_UPDATE h = 0 \<and>
   DIER (OSLOOP_AtomicAccess h False s) AND TIM_IT_UPDATE h = TIM_IT_UPDATE h \<and>
   DIER (OSLOOP_AtomicAccess h b s) AND NOT (TIM_IT_UPDATE h) = DIER s AND NOT (TIM_IT_UPDATE h) \<and>
   OSLOOP_AtomicAccess h b s = s\<lparr>DIER := DIER (OSLOOP_AtomicAccess h b s)\<rparr> \<and>
   (list_all keeps_masked es \<longrightarrow>
      (\<exists>s'. system_run h es (OSLOOP_AtomicAccess h True s) = Some s' \<and>
         \<not> update_irq_enabled h s' \<and>
         filter periodic_call (calls s') = filter periodic_call (calls s)))"
proof -
  have d: "\<not> update_irq_enabled h (OSLOOP_AtomicAccess h True s)"
    by (simp add: update_irq_enabled_def OSLOOP_AtomicAccess_def irq_clear)
  have c: "calls (OSLOOP_AtomicAccess h True s) = calls s"
    by (simp add: OSLOOP_AtomicAccess_def)
  have r: "list_all keeps_masked es \<longrightarrow>
      (\<exists>s'. system_run h es (OSLOOP_AtomicAccess h True s) = Some s' \<and>
         \<not> update_irq_enabled h s' \<and>
         filter periodic_call (calls s') = filter periodic_call (calls s))"
    using masked_run [OF d, of es] c by simp
  have "DIER (OSLOOP_AtomicAccess h True s) AND TIM_IT_UPDATE h = 0 \<and>
   DIER (OSLOOP_AtomicAccess h False s) AND TIM_IT_UPDATE h = TIM_IT_UPDATE h \<and>
   DIER (OSLOOP_AtomicAccess h b s) AND NOT (TIM_IT_UPDATE h) = DIER s AND NOT (TIM_IT_UPDATE h) \<and>
   OSLOOP_AtomicAccess h b s = s\<lparr>DIER := DIER (OSLOOP_AtomicAccess h b s)\<rparr>"
    by (simp add: OSLOOP_AtomicAccess_def irq_set irq_clear others_clear others_set)
  with r show ?thesis by blast
qed

theorem atomic_access_gates_irq_witness:
  "list_all keeps_masked
     [PERIOD 1 10 20, FOREGROUND (ATOMIC_ACCESS True), PERIOD 2 30 45, FOREGROUND SHUTDOWN,
      PERIOD 3 5 9] \<and>
   (\<exists>s'. system_run stm32
            [PERIOD 1 10 20, FOREGROUND (ATOMIC_ACCESS True), PERIOD 2 30 45,
             FOREGROUND SHUTDOWN, PERIOD 3 5 9]
            (OSLOOP_AtomicAccess stm32 True (OSLOOP_Init stm32 0 osloop_boot)) = Some s' \<and>
      \<not> update_irq_enabled stm32 s' \<and>
      filter periodic_call (calls s') =
        filter periodic_call (calls (OSLOOP_Init stm32 0 osloop_boot)))"
proof -
  have k: "list_all keeps_masked
     [PERIOD 1 10 20, FOREGROUND (ATOMIC_ACCESS True), PERIOD 2 30 45, FOREGROUND SHUTDOWN,
      PERIOD 3 5 9]"
    by simp
  from atomic_access_gates_irq [of stm32 "OSLOOP_Init stm32 0 osloop_boot" True
      "[PERIOD 1 10 20, FOREGROUND (ATOMIC_ACCESS True), PERIOD 2 30 45, FOREGROUND SHUTDOWN,
        PERIOD 3 5 9]"] k
  show ?thesis by blast
qed

text \<open>
  The gate does not count: after two acquires a single release sets the enable, and the
  next timer period runs the service while the outer acquire is still unreleased. A
  restart inside the gate does the same.
\<close>

theorem nested_release_unmasks:
  "system_run stm32
     [FOREGROUND (ATOMIC_ACCESS True), FOREGROUND (ATOMIC_ACCESS True),
      FOREGROUND (ATOMIC_ACCESS False), PERIOD 0 0 0] osloop_boot \<noteq> None \<and>
   Service ADC 0 \<in> set (calls (the (system_run stm32
     [FOREGROUND (ATOMIC_ACCESS True), FOREGROUND (ATOMIC_ACCESS True),
      FOREGROUND (ATOMIC_ACCESS False), PERIOD 0 0 0] osloop_boot))) \<and>
   system_run stm32
     [FOREGROUND (ATOMIC_ACCESS True), FOREGROUND (RESTART 0), PERIOD 0 0 0] osloop_boot \<noteq> None \<and>
   Service ADC 0 \<in> set (calls (the (system_run stm32
     [FOREGROUND (ATOMIC_ACCESS True), FOREGROUND (RESTART 0), PERIOD 0 0 0] osloop_boot)))"
  by (simp add: timer_period_def update_irq_enabled_def OSLOOP_AtomicAccess_def
      OSLOOP_Restart_def OSLOOP_TIMER_IRQHandler_def OSLOOP_Service_def Let_def
      osloop_boot_def stm32_def OSLOOP_LOOP_TRACKER_COUNT_def)

subsection \<open>The loop-time tracker\<close>

lemma idx_step:
  assumes "(i::u32) < 16"
  shows "(if 16 = i + 1 then 0 else i + 1) < (16::u32)"
    and "unat (if 16 = i + 1 then 0 else i + 1) = (unat i + 1) mod 16"
proof -
  from assms have b: "unat i < 16"
    by (simp add: word_less_nat_alt)
  then have u: "unat (i + 1) = unat i + 1"
    by (simp add: unat_word_ariths)
  have e: "i + 1 = 16 \<longleftrightarrow> unat i = 15"
    using u by (auto simp add: word_unat_eq_iff)
  show "(if 16 = i + 1 then 0 else i + 1) < (16::u32)"
    using b u e by (auto simp add: word_less_nat_alt)
  show "unat (if 16 = i + 1 then 0 else i + 1) = (unat i + 1) mod 16"
    using b u e by auto
qed

lemma service_tracker_ok:
  assumes "tracker_ok s"
  shows "\<exists>s'. OSLOOP_Service t ci co s = Some s' \<and> tracker_ok s' \<and>
           unat (m_osloopTimeTrackIdx s') = (unat (m_osloopTimeTrackIdx s) + 1) mod 16"
proof -
  from assms have i: "m_osloopTimeTrackIdx s < 16" and l: "length (m_osloopTimeTrack s) = 16"
    by (simp_all add: tracker_ok_def OSLOOP_LOOP_TRACKER_COUNT_def)
  from i have b: "unat (m_osloopTimeTrackIdx s) < 16"
    by (simp add: word_less_nat_alt)
  show ?thesis
    using idx_step [OF i] b l
    by (auto simp add: OSLOOP_Service_def Let_def tracker_ok_def OSLOOP_LOOP_TRACKER_COUNT_def
        split: if_splits)
qed

lemma call_tracker_ok:
  assumes "tracker_ok s"
  shows "\<exists>s'. osloop_call h e s = Some s' \<and> tracker_ok s'"
proof (cases e)
  case (TIMER_IRQ t ci co)
  from service_tracker_ok [OF assms, of t ci co] obtain s' where
    "OSLOOP_Service t ci co s = Some s'" "tracker_ok s'" by blast
  with TIMER_IRQ show ?thesis
    by (simp add: OSLOOP_TIMER_IRQHandler_def tracker_ok_def)
next
  case (SERVICE t ci co)
  with service_tracker_ok [OF assms, of t ci co] show ?thesis by auto
qed (use assms in \<open>simp_all add: tracker_ok_def OSLOOP_Init_def OSLOOP_Shutdown_def
      OSLOOP_Restart_def OSLOOP_AtomicAccess_def Let_def\<close>)

lemma run_tracker_ok:
  "tracker_ok s \<Longrightarrow> \<exists>s'. osloop_run h es s = Some s' \<and> tracker_ok s'"
proof (induction es arbitrary: s)
  case Nil
  then show ?case by simp
next
  case (Cons e es)
  from call_tracker_ok [OF Cons.prems, of h e] obtain s1 where
    s1: "osloop_call h e s = Some s1" "tracker_ok s1" by blast
  from Cons.IH [OF s1(2)] s1(1) show ?case by simp
qed

text \<open>
  C10. From a state with the tracker index 0 and the array at its declared size, every
  sequence of calls of the module's functions runs to the end without a store outside
  the array, and in the state it reaches the index is below
  \<^verbatim>\<open>OSLOOP_LOOP_TRACKER_COUNT\<close> and inside the array; a service call from there
  returns with the index again below the count, advanced by one modulo 16.
\<close>

theorem tracker_index_in_bounds:
  assumes "m_osloopTimeTrackIdx s0 = 0"
    and "length (m_osloopTimeTrack s0) = unat OSLOOP_LOOP_TRACKER_COUNT"
  shows "\<exists>s. osloop_run h es s0 = Some s \<and>
           m_osloopTimeTrackIdx s < OSLOOP_LOOP_TRACKER_COUNT \<and>
           unat (m_osloopTimeTrackIdx s) < length (m_osloopTimeTrack s) \<and>
           (\<exists>s'. OSLOOP_Service sysTime timeIn timeOut s = Some s' \<and>
              m_osloopTimeTrackIdx s' < OSLOOP_LOOP_TRACKER_COUNT \<and>
              unat (m_osloopTimeTrackIdx s') = (unat (m_osloopTimeTrackIdx s) + 1) mod 16)"
proof -
  from assms have "tracker_ok s0"
    by (simp add: tracker_ok_def OSLOOP_LOOP_TRACKER_COUNT_def)
  from run_tracker_ok [OF this, of h es] obtain s where
    s: "osloop_run h es s0 = Some s" "tracker_ok s" by blast
  from service_tracker_ok [OF s(2), of sysTime timeIn timeOut] obtain s' where
    s': "OSLOOP_Service sysTime timeIn timeOut s = Some s'" "tracker_ok s'"
        "unat (m_osloopTimeTrackIdx s') = (unat (m_osloopTimeTrackIdx s) + 1) mod 16" by blast
  from s(2) have "unat (m_osloopTimeTrackIdx s) < length (m_osloopTimeTrack s)"
    by (simp add: tracker_ok_def word_less_nat_alt)
  with s s' show ?thesis
    by (auto simp add: tracker_ok_def)
qed

theorem tracker_index_in_bounds_witness:
  "m_osloopTimeTrackIdx osloop_boot = 0 \<and>
   length (m_osloopTimeTrack osloop_boot) = unat OSLOOP_LOOP_TRACKER_COUNT \<and>
   (\<exists>s. osloop_run stm32
          [INIT 1, TIMER_IRQ 2 10 25, ATOMIC_ACCESS True, ATOMIC_ACCESS False,
           SERVICE 3 40 47, SHUTDOWN, RESTART 9] osloop_boot = Some s \<and>
      m_osloopTimeTrackIdx s < OSLOOP_LOOP_TRACKER_COUNT \<and>
      unat (m_osloopTimeTrackIdx s) < length (m_osloopTimeTrack s) \<and>
      (\<exists>s'. OSLOOP_Service 10 5 8 s = Some s' \<and>
         m_osloopTimeTrackIdx s' < OSLOOP_LOOP_TRACKER_COUNT \<and>
         unat (m_osloopTimeTrackIdx s') = (unat (m_osloopTimeTrackIdx s) + 1) mod 16))"
proof -
  have a: "m_osloopTimeTrackIdx osloop_boot = 0"
    by (simp add: osloop_boot_def)
  have b: "length (m_osloopTimeTrack osloop_boot) = unat OSLOOP_LOOP_TRACKER_COUNT"
    by (simp add: osloop_boot_def)
  show ?thesis
    by (intro conjI a b tracker_index_in_bounds [OF a b])
qed

end
